theory Spec2Isabelle
  imports Main "HOL-Library.Word"
begin

unbundle bit_operations_syntax

section \<open>Utilities of mkosi/util.py\<close>

text \<open>
  The module is a set of independent helpers around the operating system. Pure helpers
  are embedded as HOL functions; helpers that touch the process (working directory,
  environment table, file-creation mask, descriptor table, log) are embedded as
  functions on an explicit process state, and every exception of the source is a value.
\<close>

subsection \<open>\<open>is_power_of_2\<close>\<close>

text \<open>
  \<^verbatim>\<open>return x > 0 and (x & x - 1 == 0)\<close>: in Python \<open>-\<close> binds tighter than \<open>&\<close>, which
  binds tighter than \<open>==\<close>, so the test is \<open>(x & (x - 1)) == 0\<close> on unbounded integers
  (two's complement for negative values, as \<open>AND\<close> on \<open>int\<close>).
\<close>

definition is_power_of_2 :: "int \<Rightarrow> bool" where
  "is_power_of_2 x = (x > 0 \<and> (x AND (x - 1) = 0))"

subsection \<open>Exceptions and results\<close>

text \<open>
  The exceptions the module can raise or let through. \<open>Raised\<close> stands for any exception
  of a scope body that the module does not raise itself.
\<close>

datatype exn =
    FileNotFoundError
  | PermissionError
  | NotADirectoryError
  | IsADirectoryError
  | OSError
  | OverflowError
  | TypeError
  | ValueError
  | SyntaxError
  | KeyError
  | RuntimeError
  | Raised string

type_synonym 'a result = "exn + 'a"

subsection \<open>Process state\<close>

text \<open>
  What the operating system and the interpreter keep for the process, as far as the module
  reads or writes it. The file system maps absolute path texts to nodes; a relative path
  is taken below the working directory; dot segments and symbolic links are not resolved.
  \<open>chdir_calls\<close> records the argument of every \<^verbatim>\<open>os.chdir\<close> call, in order (the spy of the
  specification). \<open>environ\<close> is the table bound to \<^verbatim>\<open>os.environ\<close>, which \<^verbatim>\<open>os.getenv\<close>
  reads; \<open>c_environ\<close> is the environment of the process itself, which \<^verbatim>\<open>putenv\<close> writes and
  which C code and child processes see; \<open>tempdir\<close> is \<^verbatim>\<open>tempfile.tempdir\<close>. The kernel keeps nine bits of file-creation mask. \<open>fds\<close> is the
  descriptor table (descriptor and the path it was opened on), \<open>flocks\<close> the descriptors
  on which this process holds an exclusive advisory lock, \<open>held\<close> the paths locked by other
  processes. \<open>open_refusal\<close> gives, for a path, the error with which the kernel refuses to
  open it for a reason that is not in the file tree (the descriptor limit of the process,
  a name that is too long, a loop of symbolic links), if there is one. \<open>log_records\<close> are the calls made to \<^verbatim>\<open>logging\<close>, with their level and the values
  put into the message. \<open>real_uid\<close> and \<open>real_gid\<close> are what \<^verbatim>\<open>os.getuid()\<close> and
  \<^verbatim>\<open>os.getgid()\<close> return; \<open>passwd\<close> is the user database (uid and login name).
\<close>

datatype node =
    Dir (readable: bool) (searchable: bool)
  | File (readable: bool) (content: string)

datatype level = DEBUG | INFO | WARNING

datatype log_record =
    BadLine level string nat string
  | RunningAs level string int int string

record proc =
  cwd :: string
  fs :: "string \<rightharpoonup> node"
  chdir_calls :: "string list"
  environ :: "string \<rightharpoonup> string"
  c_environ :: "string \<rightharpoonup> string"
  tempdir :: "string option"
  creation_mask :: "9 word"
  fds :: "(nat \<times> string) list"
  flocks :: "nat list"
  held :: "string list"
  open_refusal :: "string \<rightharpoonup> exn"
  log_records :: "log_record list"
  real_uid :: nat
  real_gid :: nat
  passwd :: "(int \<times> string) list"

text \<open>
  The body of a \<^verbatim>\<open>with\<close> statement: it runs on the process state and either completes with
  a value or raises.
\<close>

type_synonym 'a body = "proc \<Rightarrow> 'a result \<times> proc"

text \<open>
  \<^verbatim>\<open>try: ... finally: cleanup\<close> around a computation whose outcome is \<open>r\<close>: the cleanup runs
  on the state the computation left; if the cleanup raises, its exception is the one that
  propagates, otherwise the outcome \<open>r\<close> does.
\<close>

definition finally_do :: "(proc \<Rightarrow> 'b result \<times> proc) \<Rightarrow> 'a result \<Rightarrow> proc \<Rightarrow> 'a result \<times> proc" where
  "finally_do cleanup r s =
     (case cleanup s of
        (Inl e, s') \<Rightarrow> (Inl e, s')
      | (Inr _, s') \<Rightarrow> (r, s'))"

subsection \<open>\<open>umask\<close>\<close>

text \<open>
  \<^verbatim>\<open>os.umask(mask)\<close>: the argument is converted to a C \<open>int\<close> (\<open>OverflowError\<close> outside its
  range, \<open>- 2 ^ 31\<close> to \<open>2 ^ 31 - 1\<close>); the kernel stores \<open>mask & 0o777\<close> and returns the
  previous mask.
\<close>

definition os_umask :: "int \<Rightarrow> proc \<Rightarrow> int result \<times> proc" where
  "os_umask m s =
     (if m < - 2147483648 \<or> 2147483648 \<le> m then (Inl OverflowError, s)
      else (Inr (uint (creation_mask s)), s\<lparr>creation_mask := word_of_int m\<rparr>))"

text \<open>
  \<^verbatim>\<open>
  @contextlib.contextmanager
  def umask(mask: int) -> Iterator[None]:
      old = os.umask(mask)
      try:
          yield
      finally:
          os.umask(old)
  \<close>
\<close>

definition umask :: "int \<Rightarrow> 'a body \<Rightarrow> proc \<Rightarrow> 'a result \<times> proc" where
  "umask m body s =
     (case os_umask m s of
        (Inl e, s1) \<Rightarrow> (Inl e, s1)
      | (Inr old, s1) \<Rightarrow>
          (case body s1 of (r, s2) \<Rightarrow> finally_do (os_umask old) r s2))"

subsection \<open>\<open>chdir\<close>\<close>

text \<open>
  \<open>PathString\<close> is a \<^verbatim>\<open>str\<close> or a \<^verbatim>\<open>pathlib.Path\<close>; a \<open>Path\<close> carries its normalised text.
  Two paths are equal when their texts are; a \<open>Path\<close> never equals a \<^verbatim>\<open>str\<close>
  (\<^verbatim>\<open>Path.__eq__\<close> answers \<^verbatim>\<open>NotImplemented\<close> for an operand that is not a path, and the
  comparison falls back to identity).
\<close>

text \<open>
  \<^verbatim>\<open>mkosi.types\<close> is not among the sources; \<open>PathString\<close> is taken as the union of
  \<^verbatim>\<open>Path\<close> and \<^verbatim>\<open>str\<close> that its name says and \<^verbatim>\<open>os.chdir\<close> accepts.
\<close>

datatype PathString = Str string | Path string

fun fspath :: "PathString \<Rightarrow> string" where
  "fspath (Str t) = t"
| "fspath (Path t) = t"

fun path_eq :: "string \<Rightarrow> PathString \<Rightarrow> bool" where
  "path_eq old (Path t) = (old = t)"
| "path_eq old (Str t) = False"

definition abspath :: "string \<Rightarrow> string \<Rightarrow> string" where
  "abspath wd p =
     (case p of
        [] \<Rightarrow> wd @ ''/''
      | c # _ \<Rightarrow> if c = CHR ''/'' then p else if wd = ''/'' then wd @ p else wd @ ''/'' @ p)"

text \<open>
  \<^verbatim>\<open>Path.cwd()\<close> is \<^verbatim>\<open>Path(os.getcwd())\<close>; \<^verbatim>\<open>getcwd\<close> fails when the working directory has
  been removed.
\<close>

definition Path_cwd :: "proc \<Rightarrow> string result" where
  "Path_cwd s =
     (case fs s (cwd s) of
        Some (Dir r x) \<Rightarrow> Inr (cwd s)
      | _ \<Rightarrow> Inl FileNotFoundError)"

definition os_chdir :: "PathString \<Rightarrow> proc \<Rightarrow> unit result \<times> proc" where
  "os_chdir directory s =
     (let p = abspath (cwd s) (fspath directory);
          s' = s\<lparr>chdir_calls := chdir_calls s @ [fspath directory]\<rparr>
      in case fs s p of
           None \<Rightarrow> (Inl FileNotFoundError, s')
         | Some (File r c) \<Rightarrow> (Inl NotADirectoryError, s')
         | Some (Dir r x) \<Rightarrow> if x then (Inr (), s'\<lparr>cwd := p\<rparr>) else (Inl PermissionError, s'))"

text \<open>
  \<^verbatim>\<open>
  @contextlib.contextmanager
  def chdir(directory: PathString) -> Iterator[None]:
      old = Path.cwd()

      if old == directory:
          yield
          return

      try:
          os.chdir(directory)
          yield
      finally:
          os.chdir(old)
  \<close>
  The first \<^verbatim>\<open>os.chdir\<close> is inside the \<^verbatim>\<open>try\<close>: when it raises, the \<^verbatim>\<open>finally\<close> clause still
  runs and the body does not.
\<close>

definition chdir :: "PathString \<Rightarrow> 'a body \<Rightarrow> proc \<Rightarrow> 'a result \<times> proc" where
  "chdir directory body s =
     (case Path_cwd s of
        Inl e \<Rightarrow> (Inl e, s)
      | Inr old \<Rightarrow>
          if path_eq old directory then body s
          else
            (case os_chdir directory s of
               (Inl e, s1) \<Rightarrow> finally_do (os_chdir (Path old)) (Inl e) s1
             | (Inr _, s1) \<Rightarrow>
                 (case body s1 of (r, s2) \<Rightarrow> finally_do (os_chdir (Path old)) r s2)))"

subsection \<open>\<open>flock\<close>\<close>












subsection \<open>\<open>scopedenv\<close>\<close>






subsection \<open>\<open>INVOKING_USER\<close>\<close>

text \<open>
  \<^verbatim>\<open>int(text)\<close> in base ten on ASCII text: white space around the number is dropped, one
  sign is allowed, single underscores may separate digits, and more than 4300 digits are
  refused (the interpreter's default limit). Anything else is \<open>ValueError\<close>.
\<close>

definition isdigit :: "char \<Rightarrow> bool" where
  "isdigit c = (48 \<le> (of_char c :: nat) \<and> (of_char c :: nat) \<le> 57)"

definition c_isspace :: "char \<Rightarrow> bool" where
  "c_isspace c = (c \<in> set [CHR 0x09, CHR 0x0A, CHR 0x0B, CHR 0x0C, CHR 0x0D, CHR 0x20])"

fun digits_ok :: "string \<Rightarrow> bool" where
  "digits_ok [] = False"
| "digits_ok [c] = isdigit c"
| "digits_ok (c # d # cs) =
     (if isdigit c then (if d = CHR ''_'' then digits_ok cs else digits_ok (d # cs)) else False)"

definition digits_value :: "string \<Rightarrow> int" where
  "digits_value ds = foldl (\<lambda>a c. 10 * a + (int (of_char c) - 48)) 0 ds"

definition int_of_str :: "string \<Rightarrow> int result" where
  "int_of_str t =
     (let u = dropWhile c_isspace (rev (dropWhile c_isspace (rev t)));
          neg = (u \<noteq> [] \<and> hd u = CHR ''-'');
          b = (if u \<noteq> [] \<and> (hd u = CHR ''-'' \<or> hd u = CHR ''+'') then tl u else u);
          ds = filter isdigit b
      in if digits_ok b \<and> length ds \<le> 4300
         then Inr (if neg then - digits_value ds else digits_value ds)
         else Inl ValueError)"

text \<open>
  \<^verbatim>\<open>a or b\<close> on the value of \<^verbatim>\<open>os.getenv\<close>: \<^verbatim>\<open>None\<close> and the empty text are false, so the
  right operand is taken for both. The operands of the chain are texts, the last one an
  integer; \<^verbatim>\<open>int\<close> of an integer is that integer.
\<close>

datatype str_or_int = OfStr string | OfInt int

definition py_or :: "string option \<Rightarrow> str_or_int \<Rightarrow> str_or_int" where
  "py_or a b = (case a of None \<Rightarrow> b | Some t \<Rightarrow> if t = [] then b else OfStr t)"

fun py_int :: "str_or_int \<Rightarrow> int result" where
  "py_int (OfStr t) = int_of_str t"
| "py_int (OfInt n) = Inr n"

text \<open>
  The class attributes and the two memo tables of \<^verbatim>\<open>functools.lru_cache(maxsize=1)\<close>.
\<close>

record invoking_user =
  uid :: int
  gid :: int
  invoked_as_root :: bool
  name_cache :: "string option"
  home_cache :: "string option"

text \<open>
  The class body, run once when the module is imported:
  \<^verbatim>\<open>
  class INVOKING_USER:
      uid = int(os.getenv("SUDO_UID") or os.getenv("PKEXEC_UID") or os.getuid())
      gid = int(os.getenv("SUDO_GID") or os.getgid())
      invoked_as_root = (uid == 0)
  \<close>
  \<^verbatim>\<open>os.getenv(key)\<close> is \<^verbatim>\<open>os.environ.get(key)\<close>. \<open>resolve_uid\<close> and \<open>resolve_gid\<close> are the
  first two assignments. When \<^verbatim>\<open>int\<close> raises, the class is not created.
\<close>

definition resolve_uid :: "proc \<Rightarrow> int result" where
  "resolve_uid s =
     py_int (py_or (environ s ''SUDO_UID'')
              (py_or (environ s ''PKEXEC_UID'') (OfInt (int (real_uid s)))))"

definition resolve_gid :: "proc \<Rightarrow> int result" where
  "resolve_gid s = py_int (py_or (environ s ''SUDO_GID'') (OfInt (int (real_gid s))))"

definition INVOKING_USER :: "proc \<Rightarrow> invoking_user result" where
  "INVOKING_USER s =
     (case resolve_uid s of
        Inl e \<Rightarrow> Inl e
      | Inr u \<Rightarrow>
          (case resolve_gid s of
             Inl e \<Rightarrow> Inl e
           | Inr g \<Rightarrow>
               Inr \<lparr>uid = u, gid = g, invoked_as_root = (u = 0),
                    name_cache = None, home_cache = None\<rparr>))"

text \<open>
  The class methods carry the name of the class. \<^verbatim>\<open>is_running_user\<close>:
  \<^verbatim>\<open>return cls.uid == os.getuid()\<close>.
\<close>

definition INVOKING_USER_is_running_user :: "invoking_user \<Rightarrow> proc \<Rightarrow> bool" where
  "INVOKING_USER_is_running_user cls s = (uid cls = int (real_uid s))"

text \<open>
  \<^verbatim>\<open>name\<close>: \<^verbatim>\<open>return pwd.getpwuid(cls.uid).pw_name\<close>, memoised; \<^verbatim>\<open>getpwuid\<close> raises
  \<open>KeyError\<close> for a uid without an entry, and an exception is not memoised.
\<close>

definition INVOKING_USER_name :: "invoking_user \<Rightarrow> proc \<Rightarrow> string result \<times> invoking_user" where
  "INVOKING_USER_name cls s =
     (case name_cache cls of
        Some n \<Rightarrow> (Inr n, cls)
      | None \<Rightarrow>
          (case map_of (passwd s) (uid cls) of
             None \<Rightarrow> (Inl KeyError, cls)
           | Some n \<Rightarrow> (Inr n, cls\<lparr>name_cache := Some n\<rparr>)))"

text \<open>
  \<^verbatim>\<open>home\<close>: \<^verbatim>\<open>return Path(f"~{cls.name()}").expanduser()\<close>, memoised. The expansion of
  \<open>~name\<close> belongs to \<^verbatim>\<open>pathlib\<close> and is a parameter here.
\<close>

definition INVOKING_USER_home :: "(string \<Rightarrow> proc \<Rightarrow> string result) \<Rightarrow> invoking_user \<Rightarrow> proc \<Rightarrow> string result \<times> invoking_user" where
  "INVOKING_USER_home expanduser cls s =
     (case home_cache cls of
        Some h \<Rightarrow> (Inr h, cls)
      | None \<Rightarrow>
          (case INVOKING_USER_name cls s of
             (Inl e, cls1) \<Rightarrow> (Inl e, cls1)
           | (Inr n, cls1) \<Rightarrow>
               (case expanduser (CHR ''~'' # n) s of
                  Inl e \<Rightarrow> (Inl e, cls1)
                | Inr h \<Rightarrow> (Inr h, cls1\<lparr>home_cache := Some h\<rparr>))))"

text \<open>
  \<^verbatim>\<open>
  def init(cls) -> None:
      name = cls.name()
      home = cls.home()
      logging.debug(f"Running as user '{name}' ({cls.uid}:{cls.gid}) with home {home}.")
  \<close>
\<close>

definition INVOKING_USER_init :: "(string \<Rightarrow> proc \<Rightarrow> string result) \<Rightarrow> invoking_user \<Rightarrow> proc \<Rightarrow> unit result \<times> invoking_user \<times> proc" where
  "INVOKING_USER_init expanduser cls s =
     (case INVOKING_USER_name cls s of
        (Inl e, cls1) \<Rightarrow> (Inl e, cls1, s)
      | (Inr n, cls1) \<Rightarrow>
          (case INVOKING_USER_home expanduser cls1 s of
             (Inl e, cls2) \<Rightarrow> (Inl e, cls2, s)
           | (Inr h, cls2) \<Rightarrow>
               (Inr (), cls2,
                s\<lparr>log_records := log_records s @ [RunningAs DEBUG n (uid cls2) (gid cls2) h]\<rparr>)))"

subsection \<open>\<open>dictify\<close> and \<open>read_env_file\<close>\<close>

text \<open>
  A \<^verbatim>\<open>dict\<close> keeps one entry per key, in the order of first insertion; assigning to a key
  that is present replaces its value in place. \<^verbatim>\<open>dict(pairs)\<close> assigns the pairs in order.
\<close>

fun dict_setitem :: "'k \<Rightarrow> 'v \<Rightarrow> ('k \<times> 'v) list \<Rightarrow> ('k \<times> 'v) list" where
  "dict_setitem k v [] = [(k, v)]"
| "dict_setitem k v ((k', v') # d) =
     (if k' = k then (k, v) # d else (k', v') # dict_setitem k v d)"

definition dict :: "('k \<times> 'v) list \<Rightarrow> ('k \<times> 'v) list" where
  "dict ps = foldl (\<lambda>d (k, v). dict_setitem k v d) [] ps"

text \<open>
  What a call can do: return, raise, or leave the part of Python that is modelled here.
\<close>

datatype 'a outcome = Returns 'a | Raises exn | Unmodelled

text \<open>
  \<^verbatim>\<open>
  def dictify(f):
      def wrapper(*args, **kwargs):
          return dict(f(*args, **kwargs))
      return functools.update_wrapper(wrapper, f)
  \<close>
  \<open>f\<close> is the generator, run to its end; its pairs are collected only when it returns.
\<close>

definition dictify :: "('x \<Rightarrow> proc \<Rightarrow> ('k \<times> 'v) list outcome \<times> proc) \<Rightarrow> 'x \<Rightarrow> proc \<Rightarrow> ('k \<times> 'v) list outcome \<times> proc" where
  "dictify f x s =
     (case f x s of
        (Returns ps, s') \<Rightarrow> (Returns (dict ps), s')
      | (Raises e, s') \<Rightarrow> (Raises e, s')
      | (Unmodelled, s') \<Rightarrow> (Unmodelled, s'))"

text \<open>
  A text file opened with the default \<^verbatim>\<open>newline=None\<close> gives \<open>\r\n\<close> and \<open>\r\<close> as \<open>\n\<close>, and
  iterating it gives one line per \<open>\n\<close> and a last line for what follows the last \<open>\n\<close>.
  The lines are given here without their \<open>\n\<close>, which \<^verbatim>\<open>rstrip\<close> drops anyway. The file is
  ASCII text.
\<close>

definition LF :: char where
  "LF = CHR 0x0A"

definition CR :: char where
  "CR = CHR 0x0D"

fun universal_newlines :: "string \<Rightarrow> string" where
  "universal_newlines [] = []"
| "universal_newlines [c] = [if c = CR then LF else c]"
| "universal_newlines (c # d # cs) =
     (if c = CR then (if d = LF then LF # universal_newlines cs else LF # universal_newlines (d # cs))
      else c # universal_newlines (d # cs))"

definition file_lines :: "string \<Rightarrow> string list" where
  "file_lines t =
     foldr (\<lambda>c acc. if c = LF then [] # acc
                     else (case acc of [] \<Rightarrow> [[c]] | l # ls \<Rightarrow> (c # l) # ls))
       (universal_newlines t) []"

text \<open>
  \<^verbatim>\<open>path.open()\<close>: the content of a readable regular file.
\<close>

definition path_open :: "string \<Rightarrow> proc \<Rightarrow> string result" where
  "path_open path s =
     (case fs s (abspath (cwd s) path) of
        None \<Rightarrow> Inl FileNotFoundError
      | Some (Dir r x) \<Rightarrow> Inl IsADirectoryError
      | Some (File r c) \<Rightarrow> if r then Inr c else Inl PermissionError)"

text \<open>
  \<^verbatim>\<open>str.rstrip()\<close> drops the trailing characters for which \<^verbatim>\<open>str.isspace\<close> holds.
\<close>

definition isspace :: "char \<Rightarrow> bool" where
  "isspace c =
     (c \<in> set [CHR 0x09, CHR 0x0A, CHR 0x0B, CHR 0x0C, CHR 0x0D,
               CHR 0x1C, CHR 0x1D, CHR 0x1E, CHR 0x1F, CHR 0x20])"

definition rstrip :: "string \<Rightarrow> string" where
  "rstrip t = rev (dropWhile isspace (rev t))"

text \<open>
  \<^verbatim>\<open>re.match(r"([A-Z][A-Z_0-9]+)=(.*)", line)\<close>: the match starts at the first character;
  \<open>=\<close> is not a key character, so the key is the longest run of key characters, of two
  characters or more, and must be followed by \<open>=\<close>; the line has no \<open>\n\<close>, so the
  second group is all that follows.
\<close>

definition isupper :: "char \<Rightarrow> bool" where
  "isupper c = (65 \<le> (of_char c :: nat) \<and> (of_char c :: nat) \<le> 90)"

definition key_char :: "char \<Rightarrow> bool" where
  "key_char c = (isupper c \<or> c = CHR ''_'' \<or> isdigit c)"

definition re_match :: "string \<Rightarrow> (string \<times> string) option" where
  "re_match line =
     (case line of
        [] \<Rightarrow> None
      | c # cs \<Rightarrow>
          if isupper c then
            (case dropWhile key_char cs of
               [] \<Rightarrow> None
             | e # val \<Rightarrow>
                 if e = CHR ''='' \<and> takeWhile key_char cs \<noteq> []
                 then Some (c # takeWhile key_char cs, val)
                 else None)
          else None)"

text \<open>
  \<^verbatim>\<open>ast.literal_eval\<close> on a text that starts with a quote. Modelled: one string literal in
  that quote, made of printable ASCII characters, tabs and the escapes below, with nothing
  after the closing quote; its value is returned. A text that ends before the closing quote
  is a \<open>SyntaxError\<close>. Every other text (other escapes, triple quotes, adjacent literals,
  a comment or an operator after the literal) is left unmodelled.
\<close>

definition simple_escape :: "char \<Rightarrow> char option" where
  "simple_escape c =
     (if c = CHR 0x5C then Some (CHR 0x5C)
      else if c = CHR 0x27 then Some (CHR 0x27)
      else if c = CHR 0x22 then Some (CHR 0x22)
      else if c = CHR ''n'' then Some (CHR 0x0A)
      else if c = CHR ''r'' then Some (CHR 0x0D)
      else if c = CHR ''t'' then Some (CHR 0x09)
      else if c = CHR ''a'' then Some (CHR 0x07)
      else if c = CHR ''b'' then Some (CHR 0x08)
      else if c = CHR ''f'' then Some (CHR 0x0C)
      else if c = CHR ''v'' then Some (CHR 0x0B)
      else None)"

definition plain_char :: "char \<Rightarrow> bool" where
  "plain_char c = (c = CHR 0x09 \<or> (32 \<le> (of_char c :: nat) \<and> (of_char c :: nat) \<le> 126))"

fun string_body :: "char \<Rightarrow> string \<Rightarrow> string \<Rightarrow> string outcome" where
  "string_body q [] acc = Raises SyntaxError"
| "string_body q [c] acc =
     (if c = q then Returns (rev acc)
      else if c = CHR 0x5C then Raises SyntaxError
      else if plain_char c then Raises SyntaxError
      else Unmodelled)"
| "string_body q (c # d # cs) acc =
     (if c = q then Unmodelled
      else if c = CHR 0x5C then
        (case simple_escape d of
           None \<Rightarrow> Unmodelled
         | Some e \<Rightarrow> string_body q cs (e # acc))
      else if plain_char c then string_body q (d # cs) (c # acc)
      else Unmodelled)"

definition literal_eval :: "string \<Rightarrow> string outcome" where
  "literal_eval t = (case t of [] \<Rightarrow> Unmodelled | q # cs \<Rightarrow> string_body q cs [])"

definition quoted :: "string \<Rightarrow> bool" where
  "quoted val = (val \<noteq> [] \<and> (hd val = CHR 0x22 \<or> hd val = CHR 0x27))"

text \<open>
  The loop of the generator over the numbered lines:
  \<^verbatim>\<open>
  for line_number, line in enumerate(f, start=1):
      line = line.rstrip()
      if not line or line.startswith("#"):
          continue
      if (m := re.match(r"([A-Z][A-Z_0-9]+)=(.*)", line)):
          name, val = m.groups()
          if val and val[0] in "\"'":
              val = ast.literal_eval(val)
          yield name, val
      else:
          logging.info(f"{path}:{line_number}: bad line {line!r}")
  \<close>
  The result is the sequence of the pairs yielded.
\<close>

fun read_lines :: "string \<Rightarrow> nat \<Rightarrow> string list \<Rightarrow> proc \<Rightarrow> (string \<times> string) list outcome \<times> proc" where
  "read_lines path line_number [] s = (Returns [], s)"
| "read_lines path line_number (raw # rest) s =
     (let line = rstrip raw
      in if line = [] \<or> hd line = CHR ''#'' then read_lines path (Suc line_number) rest s
         else
           (case re_match line of
              Some (name, val) \<Rightarrow>
                (case (if quoted val then literal_eval val else Returns val) of
                   Returns v \<Rightarrow>
                     (case read_lines path (Suc line_number) rest s of
                        (Returns ps, s') \<Rightarrow> (Returns ((name, v) # ps), s')
                      | (Raises e, s') \<Rightarrow> (Raises e, s')
                      | (Unmodelled, s') \<Rightarrow> (Unmodelled, s'))
                 | Raises e \<Rightarrow> (Raises e, s)
                 | Unmodelled \<Rightarrow> (Unmodelled, s))
            | None \<Rightarrow>
                read_lines path (Suc line_number) rest
                  (s\<lparr>log_records := log_records s @ [BadLine INFO path line_number line]\<rparr>)))"

text \<open>
  \<^verbatim>\<open>
  @dictify
  def read_env_file(path: Path) -> Iterator[tuple[str, str]]:
      with path.open() as f:
          for line_number, line in enumerate(f, start=1):
              ...
  \<close>
\<close>

definition read_env_file_gen :: "string \<Rightarrow> proc \<Rightarrow> (string \<times> string) list outcome \<times> proc" where
  "read_env_file_gen path s =
     (case path_open path s of
        Inl e \<Rightarrow> (Raises e, s)
      | Inr t \<Rightarrow> read_lines path 1 (file_lines t) s)"

definition read_env_file :: "string \<Rightarrow> proc \<Rightarrow> (string \<times> string) list outcome \<times> proc" where
  "read_env_file = dictify read_env_file_gen"

subsection \<open>Notions used to state the properties\<close>

text \<open>An absolute path text starts with a slash, as every value of \<^verbatim>\<open>os.getcwd()\<close> does.\<close>

definition absolute :: "string \<Rightarrow> bool" where
  "absolute p = (p \<noteq> [] \<and> hd p = CHR ''/'')"




text \<open>Two states of the class with the same three identity attributes.\<close>

definition same_identity :: "invoking_user \<Rightarrow> invoking_user \<Rightarrow> bool" where
  "same_identity c c' = (uid c' = uid c \<and> gid c' = gid c \<and> invoked_as_root c' = invoked_as_root c)"

text \<open>An environment variable that is unset for \<^verbatim>\<open>or\<close>: absent, or the empty text.\<close>

definition unset :: "string option \<Rightarrow> bool" where
  "unset a = (a = None \<or> a = Some [])"

text \<open>
  The env file as the specification describes it, line by line (lines already stripped):
  blank lines and comments; lines that match the pattern; the pair of a matching line,
  with a quoted value replaced by the value of its literal; the records logged for the
  other lines, numbered from \<open>n\<close>. A matching line is well formed when its value is not
  quoted or is a literal with a value.
\<close>

definition blank_or_comment :: "string \<Rightarrow> bool" where
  "blank_or_comment line = (line = [] \<or> hd line = CHR ''#'')"

definition conforming :: "string \<Rightarrow> bool" where
  "conforming line = (\<not> blank_or_comment line \<and> re_match line \<noteq> None)"

definition well_formed :: "string \<Rightarrow> bool" where
  "well_formed line =
     (case re_match line of
        None \<Rightarrow> True
      | Some (k, val) \<Rightarrow>
          if quoted val then (case literal_eval val of Returns v \<Rightarrow> True | _ \<Rightarrow> False) else True)"

definition line_pair :: "string \<Rightarrow> (string \<times> string) list" where
  "line_pair line =
     (if blank_or_comment line then []
      else case re_match line of
             None \<Rightarrow> []
           | Some (k, val) \<Rightarrow>
               if quoted val then (case literal_eval val of Returns v \<Rightarrow> [(k, v)] | _ \<Rightarrow> [])
               else [(k, val)])"

definition spec_pairs :: "string list \<Rightarrow> (string \<times> string) list" where
  "spec_pairs lines = concat (map line_pair lines)"

fun bad_records :: "string \<Rightarrow> nat \<Rightarrow> string list \<Rightarrow> log_record list" where
  "bad_records path n [] = []"
| "bad_records path n (line # lines) =
     (if \<not> blank_or_comment line \<and> re_match line = None then [BadLine INFO path n line] else [])
     @ bad_records path (Suc n) lines"

text \<open>The value of the last pair with key \<open>k\<close> in a sequence of pairs.\<close>

definition last_value :: "'k \<Rightarrow> ('k \<times> 'v) list \<Rightarrow> 'v option" where
  "last_value k ps =
     (if filter (\<lambda>p. fst p = k) ps = [] then None
      else Some (snd (last (filter (\<lambda>p. fst p = k) ps))))"













subsection \<open>An example process\<close>

text \<open>
  A process in directory \<open>/a\<close> with a small file system, used to run the functions on
  concrete inputs. \<open>env_text\<close> is the env file of the specification's example;
  \<open>bad_text\<close> has a quoted value without its closing quote.
\<close>

definition env_text :: string where
  "env_text =
     ''FOO=bar'' @ [LF] @ ''# comment'' @ [LF] @ [LF] @
     ''BAZ='' @ [CHR 0x22] @ ''q z'' @ [CHR 0x22] @ [LF] @ ''badline'' @ [LF]"

definition bad_text :: string where
  "bad_text = ''FOO='' @ [CHR 0x22] @ ''abc'' @ [LF]"

definition dup_text :: string where
  "dup_text = ''AB=1'' @ [LF] @ ''CD=2'' @ [LF] @ ''AB=3'' @ [LF]"

definition example_proc :: proc where
  "example_proc =
     \<lparr>cwd = ''/a'',
      fs = [''/'' \<mapsto> Dir True True, ''/a'' \<mapsto> Dir True True, ''/b'' \<mapsto> Dir True True,
            ''/a/lock'' \<mapsto> File True [], ''/a/env'' \<mapsto> File True env_text,
            ''/a/bad'' \<mapsto> File True bad_text, ''/a/dup'' \<mapsto> File True dup_text],
      chdir_calls = [],
      environ = [''HOME'' \<mapsto> ''/root'', ''TMPDIR'' \<mapsto> ''/var/tmp''],
      c_environ = [''HOME'' \<mapsto> ''/root'', ''TMPDIR'' \<mapsto> ''/var/tmp''],
      tempdir = Some ''/var/tmp'',
      creation_mask = 18,
      fds = [(0, ''/dev/tty'')],
      flocks = [],
      held = [],
      open_refusal = Map.empty,
      log_records = [],
      real_uid = 0,
      real_gid = 0,
      passwd = [(0, ''root''), (1000, ''user'')]\<rparr>"

text \<open>The same process started through \<^verbatim>\<open>sudo\<close> by user 1000.\<close>

definition sudo_proc :: proc where
  "sudo_proc = example_proc\<lparr>environ := [''SUDO_UID'' \<mapsto> ''1000'', ''SUDO_GID'' \<mapsto> ''100'']\<rparr>"

text \<open>Scope bodies: one that does nothing, one that returns its descriptor, one that raises after changing what the scope
  guards, one that sets an environment variable and raises, one that removes the directory
  the process started in.\<close>

definition pass_body :: "unit body" where
  "pass_body s = (Inr (), s)"

definition boom_body :: "unit body" where
  "boom_body s =
     (Inl (Raised ''boom''),
      s\<lparr>creation_mask := 7, environ := (environ s)(''EXTRA'' \<mapsto> ''1'', ''HOME'' := None)\<rparr>)"



definition rmdir_body :: "unit body" where
  "rmdir_body s = (Inr (), s\<lparr>fs := (fs s)(''/a'' := None)\<rparr>)"

section \<open>Properties\<close>

subsection \<open>Power-of-two test\<close>

lemma pow2_and_pred: "(2::int) ^ k AND (2 ^ k - 1) = 0"
  by (metis and.commute and_exp_eq_0_iff_not_bit mask_eq_exp_minus_1 bit_mask_iff less_irrefl)

lemma and_pred_even:
  fixes y :: int
  shows "(2 * y) AND (2 * y - 1) = 2 * (y AND (y - 1))"
proof -
  have d: "(2 * y - 1) div 2 = y - 1" by presburger
  show ?thesis using and_int.rec [of "2 * y" "2 * y - 1"] d by simp
qed

lemma and_pred_odd:
  fixes y :: int
  shows "(2 * y + 1) AND (2 * y) = 2 * y"
  using and_int.rec [of "2 * y + 1" "2 * y"] by simp

lemma and_pred_zero_pow2:
  fixes x :: int
  shows "0 < x \<Longrightarrow> x AND (x - 1) = 0 \<Longrightarrow> \<exists>k. x = 2 ^ k"
proof (induction "nat x" arbitrary: x rule: less_induct)
  case less
  show ?case
  proof (cases "even x")
    case True
    then obtain y where y: "x = 2 * y" by (auto elim: evenE)
    with less.prems have ypos: "0 < y" by simp
    from less.prems(2) y have "y AND (y - 1) = 0" by (simp add: and_pred_even)
    moreover have "nat y < nat x" using y ypos by simp
    ultimately obtain k where "y = 2 ^ k" using less.hyps ypos by blast
    then have "x = 2 ^ Suc k" using y by simp
    then show ?thesis by blast
  next
    case False
    then obtain y where y: "x = 2 * y + 1" by (auto elim: oddE)
    from less.prems(2) y have "2 * y = 0" using and_pred_odd [of y] by simp
    then have "x = 2 ^ 0" using y by simp
    then show ?thesis by blast
  qed
qed

text \<open>
  C9: for every integer \<open>x\<close>, \<open>is_power_of_2 x\<close> is true exactly when \<open>x\<close> is positive and
  \<open>x = 2 ^ k\<close> for some natural number \<open>k\<close>; in particular it is false for zero and for
  every negative integer.
\<close>

theorem is_power_of_2_iff:
  "(is_power_of_2 x \<longleftrightarrow> (0 < x \<and> (\<exists>k::nat. x = 2 ^ k)))
   \<and> (x \<le> 0 \<longrightarrow> \<not> is_power_of_2 x)"
  unfolding is_power_of_2_def using and_pred_zero_pow2 [of x] pow2_and_pred by auto

theorem is_power_of_2_iff_witness:
  "is_power_of_2 8 \<and> \<not> is_power_of_2 6 \<and> (- 4 :: int) \<le> 0 \<and> \<not> is_power_of_2 (- 4) \<and> \<not> is_power_of_2 0"
proof -
  have "(8::int) = 2 ^ 3" by simp
  then have a: "is_power_of_2 8" using is_power_of_2_iff [of 8] by fastforce
  have b: "\<not> is_power_of_2 (- 4)" using is_power_of_2_iff [of "- 4"] by simp
  have c: "\<not> is_power_of_2 0" using is_power_of_2_iff [of 0] by simp
  have d: "\<not> is_power_of_2 6" by (simp add: is_power_of_2_def)
  show ?thesis using a b c d by simp
qed

subsection \<open>File-creation mask\<close>

lemma os_umask_old:
  "os_umask (uint (w :: 9 word)) s = (Inr (uint (creation_mask s)), s\<lparr>creation_mask := w\<rparr>)"
proof -
  have "uint w < 2 ^ 9" using uint_bounded [of w] by simp
  then have "uint w < 2147483648" by simp
  moreover have "\<not> uint w < - 2147483648"
  proof -
    have "0 \<le> uint w" by (rule uint_ge_0)
    then show ?thesis by linarith
  qed
  ultimately show ?thesis by (simp add: os_umask_def)
qed

lemma mask_word_of_int: "0 \<le> M \<Longrightarrow> M \<le> 511 \<Longrightarrow> uint (word_of_int M :: 9 word) = M"
  by (simp add: uint_word_of_int take_bit_int_eq_self)

lemma os_umask_in_range:
  "0 \<le> M \<Longrightarrow> M \<le> 511 \<Longrightarrow>
   os_umask M s = (Inr (uint (creation_mask s)), s\<lparr>creation_mask := word_of_int M\<rparr>)"
  by (simp add: os_umask_def)

text \<open>
  C5: for every mask \<open>M\<close> from 0 to \<open>0o777\<close> (511), the body of \<open>umask M\<close> runs in a state
  whose file-creation mask is \<open>M\<close>, and whatever the body does and however it ends (its
  outcome \<open>r\<close> is a value or an exception), the scope ends with that outcome and with the
  mask the process had before the call.
\<close>

theorem umask_scope:
  assumes "0 \<le> M" and "M \<le> 511"
  shows "let s1 = s\<lparr>creation_mask := word_of_int M\<rparr>
         in uint (creation_mask s1) = M
          \<and> umask M body s = (case body s1 of (r, s2) \<Rightarrow> (r, s2\<lparr>creation_mask := creation_mask s\<rparr>))
          \<and> creation_mask (snd (umask M body s)) = creation_mask s"
  using assms
  by (simp add: umask_def os_umask_in_range os_umask_old finally_do_def mask_word_of_int Let_def
      split: prod.splits)

theorem umask_scope_witness:
  "(0::int) \<le> 63 \<and> (63::int) \<le> 511
   \<and> fst (umask 63 boom_body example_proc) = Inl (Raised ''boom'')
   \<and> creation_mask (snd (umask 63 boom_body example_proc)) = 18"
  using umask_scope [where M = 63 and body = boom_body and s = example_proc]
  by (simp add: Let_def boom_body_def example_proc_def split: prod.splits)

subsection \<open>Working directory\<close>

lemma abspath_absolute: "absolute p \<Longrightarrow> abspath wd p = p"
  by (cases p) (auto simp: abspath_def absolute_def)

lemma os_chdir_ok:
  "fs s (abspath (cwd s) (fspath d)) = Some (Dir r True) \<Longrightarrow>
   os_chdir d s = (Inr (), s\<lparr>chdir_calls := chdir_calls s @ [fspath d], cwd := abspath (cwd s) (fspath d)\<rparr>)"
  by (simp add: os_chdir_def Let_def)

text \<open>
  C2, as amended: for every target directory that exists, can be entered and differs from
  the working directory, the body of \<open>chdir\<close> runs with the target as working directory,
  and when the scope ends, by a value or by an exception of the body, the working
  directory is the one before the call, provided that directory still exists and can be
  entered at that moment.
\<close>

theorem chdir_restores:
  assumes "absolute (cwd s)"
    and "fs s (cwd s) = Some (Dir r0 x0)"
    and "\<not> path_eq (cwd s) directory"
    and "fs s (abspath (cwd s) (fspath directory)) = Some (Dir r1 True)"
    and "body (s\<lparr>chdir_calls := chdir_calls s @ [fspath directory],
                 cwd := abspath (cwd s) (fspath directory)\<rparr>) = (res, s2)"
    and "fs s2 (cwd s) = Some (Dir r2 True)"
  shows "chdir directory body s = (res, s2\<lparr>chdir_calls := chdir_calls s2 @ [cwd s], cwd := cwd s\<rparr>)
       \<and> cwd (snd (chdir directory body s)) = cwd s"
proof -
  have old: "Path_cwd s = Inr (cwd s)" using assms(2) by (simp add: Path_cwd_def)
  have ret: "abspath (cwd s2) (cwd s) = cwd s" using assms(1) by (rule abspath_absolute)
  have "os_chdir (Path (cwd s)) s2
      = (Inr (), s2\<lparr>chdir_calls := chdir_calls s2 @ [cwd s], cwd := cwd s\<rparr>)"
    using os_chdir_ok [of s2 "Path (cwd s)" r2] assms(6) ret by simp
  then show ?thesis
    using old assms(3,4,5) by (simp add: chdir_def os_chdir_ok finally_do_def)
qed

theorem chdir_restores_witness:
  "absolute (cwd example_proc)
   \<and> \<not> path_eq (cwd example_proc) (Path ''/b'')
   \<and> fs example_proc ''/b'' = Some (Dir True True)
   \<and> fst (chdir (Path ''/b'') boom_body example_proc) = Inl (Raised ''boom'')
   \<and> cwd (snd (chdir (Path ''/b'') boom_body example_proc)) = ''/a''"
  using chdir_restores [where s = example_proc and directory = "Path ''/b''" and body = boom_body
      and ?r0.0 = True and ?x0.0 = True and ?r1.0 = True and ?r2.0 = True]
  by (simp add: absolute_def abspath_def boom_body_def example_proc_def)

text \<open>
  The claim as stated fails when the body removes the directory the process started in:
  the target \<open>/b\<close> exists and differs from the working directory \<open>/a\<close>, the body returns
  normally, and the scope ends with \<open>FileNotFoundError\<close> from the second \<^verbatim>\<open>os.chdir\<close> and
  with \<open>/b\<close> as working directory.
\<close>

theorem chdir_restores_counterexample:
  "fs example_proc ''/b'' = Some (Dir True True)
   \<and> ''/b'' \<noteq> cwd example_proc
   \<and> chdir (Path ''/b'') rmdir_body example_proc
       = (Inl FileNotFoundError,
          example_proc\<lparr>cwd := ''/b'', chdir_calls := [''/b'', ''/a''],
                         fs := (fs example_proc)(''/a'' := None)\<rparr>)"
  by (simp add: chdir_def Path_cwd_def os_chdir_def abspath_def finally_do_def rmdir_body_def
      example_proc_def Let_def)

text \<open>
  When the comparison \<^verbatim>\<open>old == directory\<close> holds, \<open>chdir\<close> is its body: it adds no call
  of \<^verbatim>\<open>os.chdir\<close> and no other effect.
\<close>

lemma chdir_same_noop:
  "Path_cwd s = Inr old \<Longrightarrow> path_eq old directory \<Longrightarrow> chdir directory body s = body s"
  by (simp add: chdir_def)

text \<open>
  C6: a target equal to the current working directory should cause no directory change.
  For the target given as a \<^verbatim>\<open>str\<close>, the comparison with the \<^verbatim>\<open>Path\<close> of the working
  directory is false, and \<open>chdir\<close> calls \<^verbatim>\<open>os.chdir\<close> twice: in directory \<open>/a\<close>, the
  target \<open>''/a''\<close> and an empty body leave two recorded calls.
\<close>

theorem chdir_str_same_directory:
  "Path_cwd example_proc = Inr ''/a''
   \<and> chdir (Str ''/a'') pass_body example_proc
       = (Inr (), example_proc\<lparr>chdir_calls := [''/a'', ''/a'']\<rparr>)"
  by (simp add: chdir_def Path_cwd_def os_chdir_def abspath_def finally_do_def pass_body_def
      example_proc_def Let_def)

subsection \<open>Environment table\<close>










subsection \<open>Advisory lock\<close>

















subsection \<open>Invoking user\<close>

lemma int_of_str_1000: "int_of_str ''1000'' = Inr 1000"
  by (simp add: int_of_str_def c_isspace_def isdigit_def digits_value_def)

lemma resolve_uid_cases:
  "(\<forall>t. environ s ''SUDO_UID'' = Some t \<and> t \<noteq> [] \<longrightarrow> resolve_uid s = int_of_str t)
   \<and> (\<forall>t. unset (environ s ''SUDO_UID'') \<and> environ s ''PKEXEC_UID'' = Some t \<and> t \<noteq> [] \<longrightarrow>
          resolve_uid s = int_of_str t)
   \<and> (unset (environ s ''SUDO_UID'') \<and> unset (environ s ''PKEXEC_UID'') \<longrightarrow>
          resolve_uid s = Inr (int (real_uid s)))"
  by (auto simp: resolve_uid_def py_or_def unset_def)

lemma resolve_gid_cases:
  "(\<forall>t. environ s ''SUDO_GID'' = Some t \<and> t \<noteq> [] \<longrightarrow> resolve_gid s = int_of_str t)
   \<and> (unset (environ s ''SUDO_GID'') \<longrightarrow> resolve_gid s = Inr (int (real_gid s)))"
  by (auto simp: resolve_gid_def py_or_def unset_def)

lemma INVOKING_USER_fields:
  "INVOKING_USER s = Inr cls \<Longrightarrow> resolve_uid s = Inr (uid cls) \<and> resolve_gid s = Inr (gid cls)"
  by (auto simp: INVOKING_USER_def split: sum.splits)

text \<open>
  C4: the uid is taken from \<open>SUDO_UID\<close>, else from \<open>PKEXEC_UID\<close>, else from the real uid
  of the process, and the gid from \<open>SUDO_GID\<close>, else from the real gid (a variable that
  is absent or empty counts as not set). In particular, \<open>SUDO_UID\<close> set to \<open>1000\<close>
  without \<open>PKEXEC_UID\<close> gives uid 1000 whatever the real uid, and with neither variable
  the uid is the real uid. These are the attributes of the class when it is created.
\<close>

theorem identity_precedence:
  "(\<forall>t. environ s ''SUDO_UID'' = Some t \<and> t \<noteq> [] \<longrightarrow> resolve_uid s = int_of_str t)
   \<and> (\<forall>t. unset (environ s ''SUDO_UID'') \<and> environ s ''PKEXEC_UID'' = Some t \<and> t \<noteq> [] \<longrightarrow>
          resolve_uid s = int_of_str t)
   \<and> (unset (environ s ''SUDO_UID'') \<and> unset (environ s ''PKEXEC_UID'') \<longrightarrow>
          resolve_uid s = Inr (int (real_uid s)))
   \<and> (\<forall>t. environ s ''SUDO_GID'' = Some t \<and> t \<noteq> [] \<longrightarrow> resolve_gid s = int_of_str t)
   \<and> (unset (environ s ''SUDO_GID'') \<longrightarrow> resolve_gid s = Inr (int (real_gid s)))
   \<and> (environ s ''SUDO_UID'' = Some ''1000'' \<and> environ s ''PKEXEC_UID'' = None \<longrightarrow>
          resolve_uid s = Inr 1000)
   \<and> (environ s ''SUDO_UID'' = None \<and> environ s ''PKEXEC_UID'' = None \<longrightarrow>
          resolve_uid s = Inr (int (real_uid s)))
   \<and> (\<forall>cls. INVOKING_USER s = Inr cls \<longrightarrow> resolve_uid s = Inr (uid cls) \<and> resolve_gid s = Inr (gid cls))"
proof -
  have a: "environ s ''SUDO_UID'' = Some ''1000'' \<and> environ s ''PKEXEC_UID'' = None \<longrightarrow>
          resolve_uid s = Inr 1000"
    using resolve_uid_cases [of s] int_of_str_1000 by auto
  have b: "environ s ''SUDO_UID'' = None \<and> environ s ''PKEXEC_UID'' = None \<longrightarrow>
          resolve_uid s = Inr (int (real_uid s))"
    using resolve_uid_cases [of s] by (simp add: unset_def)
  show ?thesis
    using resolve_uid_cases [of s] resolve_gid_cases [of s] a b INVOKING_USER_fields [of s]
    by blast
qed

lemma int_of_str_100: "int_of_str ''100'' = Inr 100"
  by (simp add: int_of_str_def c_isspace_def isdigit_def digits_value_def)

theorem identity_precedence_witness:
  "environ sudo_proc ''SUDO_UID'' = Some ''1000'' \<and> environ sudo_proc ''PKEXEC_UID'' = None
   \<and> real_uid sudo_proc = 0
   \<and> resolve_uid sudo_proc = Inr 1000
   \<and> environ example_proc ''SUDO_UID'' = None \<and> environ example_proc ''PKEXEC_UID'' = None
   \<and> resolve_uid example_proc = Inr 0
   \<and> INVOKING_USER sudo_proc
       = Inr \<lparr>uid = 1000, gid = 100, invoked_as_root = False, name_cache = None, home_cache = None\<rparr>"
proof -
  have e: "environ sudo_proc ''SUDO_UID'' = Some ''1000'' \<and> environ sudo_proc ''PKEXEC_UID'' = None
           \<and> environ sudo_proc ''SUDO_GID'' = Some ''100'' \<and> real_uid sudo_proc = 0"
    by (simp add: sudo_proc_def example_proc_def)
  have f: "environ example_proc ''SUDO_UID'' = None \<and> environ example_proc ''PKEXEC_UID'' = None
           \<and> real_uid example_proc = 0"
    by (simp add: example_proc_def)
  have u: "resolve_uid sudo_proc = Inr 1000"
    using identity_precedence [of sudo_proc] e by blast
  have v: "resolve_uid example_proc = Inr 0"
    using identity_precedence [of example_proc] f by simp
  have g: "resolve_gid sudo_proc = Inr 100"
    using identity_precedence [of sudo_proc] e int_of_str_100 by simp
  have "INVOKING_USER sudo_proc
       = Inr \<lparr>uid = 1000, gid = 100, invoked_as_root = False, name_cache = None, home_cache = None\<rparr>"
    using u g by (simp add: INVOKING_USER_def)
  then show ?thesis using e f u v by simp
qed

lemma name_same_identity: "same_identity cls (snd (INVOKING_USER_name cls s))"
  by (simp add: INVOKING_USER_name_def same_identity_def split: option.splits)

lemma same_identity_trans: "same_identity a b \<Longrightarrow> same_identity b c \<Longrightarrow> same_identity a c"
  by (simp add: same_identity_def)

lemma home_same_identity: "same_identity cls (snd (INVOKING_USER_home ex cls s))"
  using name_same_identity [of cls s]
  by (auto simp: INVOKING_USER_home_def same_identity_def split: option.splits prod.splits sum.splits)

lemma init_same_identity: "same_identity cls (fst (snd (INVOKING_USER_init ex cls s)))"
proof -
  obtain r1 c1 where n: "INVOKING_USER_name cls s = (r1, c1)" by (cases "INVOKING_USER_name cls s")
  then have a: "same_identity cls c1" using name_same_identity [of cls s] by simp
  obtain r2 c2 where h: "INVOKING_USER_home ex c1 s = (r2, c2)" by (cases "INVOKING_USER_home ex c1 s")
  then have b: "same_identity c1 c2" using home_same_identity [of c1 ex s] by simp
  have c: "same_identity cls c2" using a b by (rule same_identity_trans)
  show ?thesis using n h a c
    by (cases r1; cases r2) (simp_all add: INVOKING_USER_init_def)
qed

text \<open>
  C7: whatever the environment variables and the real uid and gid, the class, when it is
  created, has \<open>invoked_as_root\<close> equal to \<open>uid = 0\<close>; and no method of the class changes
  \<open>uid\<close>, \<open>gid\<close> or \<open>invoked_as_root\<close> (they only fill the memo tables and log).
\<close>

theorem identity_invariant:
  "(\<forall>cls. INVOKING_USER s = Inr cls \<longrightarrow> invoked_as_root cls = (uid cls = 0))
   \<and> same_identity cls (snd (INVOKING_USER_name cls s'))
   \<and> same_identity cls (snd (INVOKING_USER_home ex cls s'))
   \<and> same_identity cls (fst (snd (INVOKING_USER_init ex cls s')))"
  using name_same_identity home_same_identity init_same_identity
  by (auto simp: INVOKING_USER_def split: sum.splits)

theorem identity_invariant_witness:
  "INVOKING_USER example_proc
     = Inr \<lparr>uid = 0, gid = 0, invoked_as_root = True, name_cache = None, home_cache = None\<rparr>
   \<and> invoked_as_root \<lparr>uid = 0, gid = 0, invoked_as_root = True, name_cache = None, home_cache = None\<rparr>
       = (uid \<lparr>uid = 0, gid = 0, invoked_as_root = True, name_cache = None, home_cache = None\<rparr> = 0)"
proof -
  have a: "INVOKING_USER example_proc
     = Inr \<lparr>uid = 0, gid = 0, invoked_as_root = True, name_cache = None, home_cache = None\<rparr>"
    by (simp add: INVOKING_USER_def resolve_uid_def resolve_gid_def py_or_def example_proc_def)
  then show ?thesis using identity_invariant [of example_proc] by blast
qed

subsection \<open>Dictionaries\<close>

lemma map_fst_dict_setitem:
  "map fst (dict_setitem k v d) = (if k \<in> set (map fst d) then map fst d else map fst d @ [k])"
proof (induction d)
  case Nil
  then show ?case by simp
next
  case (Cons e d)
  obtain k' v' where e: "e = (k', v')" by (cases e)
  show ?case using Cons e by (cases "k' = k") simp_all
qed

lemma keys_dict_setitem: "set (map fst (dict_setitem k v d)) = insert k (set (map fst d))"
  unfolding map_fst_dict_setitem by auto

lemma distinct_dict_setitem:
  "distinct (map fst d) \<Longrightarrow> distinct (map fst (dict_setitem k v d))"
  unfolding map_fst_dict_setitem by auto

lemma map_of_dict_setitem: "map_of (dict_setitem k v d) = (map_of d)(k \<mapsto> v)"
  by (induction d) (auto simp: fun_eq_iff)

lemma foldl_setitem_distinct:
  "distinct (map fst d0) \<Longrightarrow> distinct (map fst (foldl (\<lambda>d (k, v). dict_setitem k v d) d0 ps))"
proof (induction ps arbitrary: d0)
  case Nil
  then show ?case by simp
next
  case (Cons p ps)
  obtain k v where p: "p = (k, v)" by (cases p)
  have "distinct (map fst (dict_setitem k v d0))" using Cons.prems by (rule distinct_dict_setitem)
  from Cons.IH [OF this] p show ?case by simp
qed

lemma foldl_setitem_keys:
  "set (map fst (foldl (\<lambda>d (k, v). dict_setitem k v d) d0 ps))
     = set (map fst d0) \<union> set (map fst ps)"
proof (induction ps arbitrary: d0)
  case Nil
  then show ?case by simp
next
  case (Cons p ps)
  obtain k v where p: "p = (k, v)" by (cases p)
  have "set (map fst (foldl (\<lambda>d (k, v). dict_setitem k v d) (dict_setitem k v d0) ps))
      = insert k (set (map fst d0)) \<union> set (map fst ps)"
    using Cons.IH [of "dict_setitem k v d0"] by (simp only: keys_dict_setitem)
  then show ?case using p by simp
qed

lemma foldl_setitem_map_of:
  "map_of (foldl (\<lambda>d (k, v). dict_setitem k v d) d0 ps) x
     = (case map_of (rev ps) x of None \<Rightarrow> map_of d0 x | Some v \<Rightarrow> Some v)"
proof (induction ps arbitrary: d0)
  case Nil
  then show ?case by simp
next
  case (Cons p ps)
  obtain k v where p: "p = (k, v)" by (cases p)
  show ?case
    using Cons.IH [of "dict_setitem k v d0"] p
    by (simp add: map_of_dict_setitem map_add_def split: option.splits)
qed

lemma dict_props:
  "distinct (map fst (dict ps)) \<and> map_of (dict ps) = map_of (rev ps)
   \<and> set (map fst (dict ps)) = set (map fst ps)"
proof -
  have "map_of (dict ps) x = map_of (rev ps) x" for x
    using foldl_setitem_map_of [of "[]" ps x] by (simp add: dict_def split: option.splits)
  then have "map_of (dict ps) = map_of (rev ps)" by (simp add: fun_eq_iff)
  then show ?thesis
    using foldl_setitem_distinct [of "[]" ps] foldl_setitem_keys [of "[]" ps] by (simp add: dict_def)
qed

lemma map_of_rev_last: "map_of (rev ps) k = last_value k ps"
proof (induction ps rule: rev_induct)
  case Nil
  then show ?case by (simp add: last_value_def)
next
  case (snoc p ps)
  obtain k' v where p: "p = (k', v)" by (cases p)
  show ?case
  proof (cases "k' = k")
    case True
    then show ?thesis using p by (simp add: last_value_def)
  next
    case False
    then show ?thesis using p snoc by (simp add: last_value_def)
  qed
qed

lemma distinct_key_once:
  "distinct (map fst d) \<Longrightarrow> k \<in> set (map fst d) \<Longrightarrow> length (filter (\<lambda>e. fst e = k) d) = 1"
proof (induction d)
  case Nil
  then show ?case by simp
next
  case (Cons e d)
  show ?case
  proof (cases "fst e = k")
    case True
    then have "k \<notin> set (map fst d)" using Cons.prems by auto
    then have "filter (\<lambda>e. fst e = k) d = []" by (auto simp: filter_empty_conv)
    then show ?thesis using True by simp
  next
    case False
    then show ?thesis using Cons by auto
  qed
qed

subsection \<open>Env files\<close>

text \<open>
  The loop of the generator against the line-by-line description: when it returns, it has
  yielded the pairs of the conforming lines in file order and logged the other lines; and
  it returns whenever every conforming line is well formed.
\<close>

lemma read_lines_returns:
  "read_lines path n raws s = (Returns ps, s') \<Longrightarrow>
   ps = spec_pairs (map rstrip raws)
   \<and> s' = s\<lparr>log_records := log_records s @ bad_records path n (map rstrip raws)\<rparr>"
proof (induction raws arbitrary: n s ps s')
  case Nil
  then show ?case by (simp add: spec_pairs_def)
next
  case (Cons raw rest)
  let ?line = "rstrip raw"
  show ?case
  proof (cases "blank_or_comment ?line")
    case True
    then have "read_lines path (Suc n) rest s = (Returns ps, s')"
      using Cons.prems by (simp add: blank_or_comment_def)
    from Cons.IH [OF this] True show ?thesis by (simp add: spec_pairs_def line_pair_def)
  next
    case False
    then have nb: "?line \<noteq> []" "hd ?line \<noteq> CHR ''#''" by (simp_all add: blank_or_comment_def)
    show ?thesis
    proof (cases "re_match ?line")
      case None
      then have "read_lines path (Suc n) rest
          (s\<lparr>log_records := log_records s @ [BadLine INFO path n ?line]\<rparr>) = (Returns ps, s')"
        using Cons.prems nb by simp
      from Cons.IH [OF this] None False show ?thesis by (simp add: spec_pairs_def line_pair_def)
    next
      case (Some kv)
      obtain k val where kv: "kv = (k, val)" by (cases kv)
      obtain v where v: "(if quoted val then literal_eval val else Returns val) = Returns v"
        using Cons.prems nb Some kv by (auto simp: Let_def split: outcome.splits if_splits)
      obtain ps' where rest: "read_lines path (Suc n) rest s = (Returns ps', s')" and ps: "ps = (k, v) # ps'"
        using Cons.prems nb Some kv v
        by (cases "read_lines path (Suc n) rest s") (auto simp: Let_def split: outcome.splits if_splits)
      have "line_pair ?line = [(k, v)]"
        using False Some kv v by (auto simp: line_pair_def split: if_splits outcome.splits)
      with Cons.IH [OF rest] ps Some False show ?thesis by (simp add: spec_pairs_def)
    qed
  qed
qed

lemma read_lines_well_formed:
  "\<forall>l \<in> set (map rstrip raws). conforming l \<longrightarrow> well_formed l \<Longrightarrow>
   read_lines path n raws s
     = (Returns (spec_pairs (map rstrip raws)),
        s\<lparr>log_records := log_records s @ bad_records path n (map rstrip raws)\<rparr>)"
proof (induction raws arbitrary: n s)
  case Nil
  then show ?case by (simp add: spec_pairs_def)
next
  case (Cons raw rest)
  let ?line = "rstrip raw"
  have rest: "\<forall>l \<in> set (map rstrip rest). conforming l \<longrightarrow> well_formed l" using Cons.prems by simp
  note IH = Cons.IH [OF rest]
  show ?case
  proof (cases "blank_or_comment ?line")
    case True
    then show ?thesis using IH [of "Suc n" s] by (simp add: spec_pairs_def line_pair_def blank_or_comment_def)
  next
    case False
    then have nb: "?line \<noteq> []" "hd ?line \<noteq> CHR ''#''" by (simp_all add: blank_or_comment_def)
    show ?thesis
    proof (cases "re_match ?line")
      case None
      then show ?thesis
        using nb False IH [of "Suc n" "s\<lparr>log_records := log_records s @ [BadLine INFO path n ?line]\<rparr>"]
        by (simp add: spec_pairs_def line_pair_def)
    next
      case (Some kv)
      obtain k val where kv: "kv = (k, val)" by (cases kv)
      have wf: "well_formed ?line" using Cons.prems False Some by (simp add: conforming_def)
      have "\<exists>v. (if quoted val then literal_eval val else Returns val) = Returns v"
      proof (cases "quoted val")
        case True
        then show ?thesis using wf Some kv by (cases "literal_eval val") (simp_all add: well_formed_def)
      next
        case no: False
        then show ?thesis by simp
      qed
      then obtain v where v: "(if quoted val then literal_eval val else Returns val) = Returns v" ..
      have lp: "line_pair ?line = [(k, v)]"
        using False Some kv v by (auto simp: line_pair_def split: if_splits outcome.splits)
      show ?thesis
        using nb Some kv v lp IH [of "Suc n" s] by (simp add: spec_pairs_def Let_def)
    qed
  qed
qed



lemma read_env_file_conforming:
  assumes "path_open path s = Inr t"
    and "\<forall>l \<in> set (map rstrip (file_lines t)). conforming l \<longrightarrow> well_formed l"
  shows "read_env_file path s
       = (Returns (dict (spec_pairs (map rstrip (file_lines t)))),
          s\<lparr>log_records := log_records s @ bad_records path 1 (map rstrip (file_lines t))\<rparr>)"
  using assms(1) read_lines_well_formed [OF assms(2), of path 1 s]
  by (simp add: read_env_file_def dictify_def read_env_file_gen_def)




















lemma dup_open: "path_open ''/a/dup'' example_proc = Inr dup_text"
  by (simp add: path_open_def example_proc_def abspath_def)

lemma dup_lines: "map rstrip (file_lines dup_text) = [''AB=1'', ''CD=2'', ''AB=3'']"
  by code_simp

lemma dup_well_formed: "list_all (\<lambda>l. conforming l \<longrightarrow> well_formed l) [''AB=1'', ''CD=2'', ''AB=3'']"
  by code_simp

lemma dup_pairs: "spec_pairs [''AB=1'', ''CD=2'', ''AB=3''] = [(''AB'', ''1''), (''CD'', ''2''), (''AB'', ''3'')]"
  by code_simp

lemma dup_dict: "dict [(''AB'', ''1''), (''CD'', ''2''), (''AB'', ''3'')] = [(''AB'', ''3''), (''CD'', ''2'')]"
  by code_simp

lemma dup_bad: "bad_records ''/a/dup'' 1 [''AB=1'', ''CD=2'', ''AB=3''] = []"
  by code_simp











text \<open>
  C10: when \<open>read_env_file\<close> returns a mapping, every key of a conforming line is in the
  mapping exactly once, bound to the value of the last conforming line with that key in
  file order, also when the key is on several lines; and the mapping has no other keys.
\<close>

theorem read_env_file_last_wins:
  assumes "read_env_file path s = (Returns d, s')"
  shows "\<exists>t. path_open path s = Inr t
           \<and> (let ps = spec_pairs (map rstrip (file_lines t))
              in d = dict ps
               \<and> (\<forall>k \<in> set (map fst ps).
                     length (filter (\<lambda>e. fst e = k) d) = 1 \<and> map_of d k = last_value k ps)
               \<and> set (map fst d) = set (map fst ps))"
proof -
  obtain t where t: "path_open path s = Inr t"
    using assms by (cases "path_open path s") (simp_all add: read_env_file_def dictify_def read_env_file_gen_def)
  obtain ps where ps: "read_lines path 1 (file_lines t) s = (Returns ps, s')" and d: "d = dict ps"
    using assms t
    by (cases "read_lines path 1 (file_lines t) s")
       (auto simp: read_env_file_def dictify_def read_env_file_gen_def split: outcome.splits)
  have sp: "ps = spec_pairs (map rstrip (file_lines t))" using read_lines_returns [OF ps] by simp
  have once: "length (filter (\<lambda>e. fst e = k) d) = 1 \<and> map_of d k = last_value k ps"
    if "k \<in> set (map fst ps)" for k
    using that dict_props [of ps] d distinct_key_once [of d k] map_of_rev_last [of ps k] by simp
  have "d = dict ps \<and> (\<forall>k \<in> set (map fst ps).
           length (filter (\<lambda>e. fst e = k) d) = 1 \<and> map_of d k = last_value k ps)
        \<and> set (map fst d) = set (map fst ps)"
    using once d dict_props [of ps] by blast
  then show ?thesis using t sp by (auto simp: Let_def)
qed

lemma dup_result:
  "read_env_file ''/a/dup'' example_proc = (Returns [(''AB'', ''3''), (''CD'', ''2'')], example_proc)"
proof -
  have wf: "\<forall>l \<in> set (map rstrip (file_lines dup_text)). conforming l \<longrightarrow> well_formed l"
    using dup_well_formed unfolding dup_lines list_all_iff by blast
  have lg: "example_proc\<lparr>log_records := log_records example_proc @ []\<rparr> = example_proc" by simp
  show ?thesis
    using read_env_file_conforming [OF dup_open wf]
    by (simp only: dup_lines dup_pairs dup_dict dup_bad lg)
qed

lemma dup_last: "last_value ''AB'' [(''AB'', ''1''), (''CD'', ''2''), (''AB'', ''3'')] = Some ''3''"
  by code_simp

theorem read_env_file_last_wins_witness:
  "read_env_file ''/a/dup'' example_proc = (Returns [(''AB'', ''3''), (''CD'', ''2'')], example_proc)
   \<and> spec_pairs (map rstrip (file_lines dup_text)) = [(''AB'', ''1''), (''CD'', ''2''), (''AB'', ''3'')]
   \<and> length (filter (\<lambda>e. fst e = ''AB'') [(''AB'', ''3''), (''CD'', ''2'')]) = 1
   \<and> map_of [(''AB'', ''3''), (''CD'', ''2'')] ''AB'' = Some ''3''"
proof -
  have sp: "spec_pairs (map rstrip (file_lines dup_text)) = [(''AB'', ''1''), (''CD'', ''2''), (''AB'', ''3'')]"
    by (simp only: dup_lines dup_pairs)
  obtain t where t: "path_open ''/a/dup'' example_proc = Inr t"
    and p: "let ps = spec_pairs (map rstrip (file_lines t))
            in [(''AB'', ''3''), (''CD'', ''2'')] = dict ps
             \<and> (\<forall>k \<in> set (map fst ps).
                   length (filter (\<lambda>e. fst e = k) [(''AB'', ''3''), (''CD'', ''2'')]) = 1
                   \<and> map_of [(''AB'', ''3''), (''CD'', ''2'')] k = last_value k ps)
             \<and> set (map fst [(''AB'', ''3''), (''CD'', ''2'')]) = set (map fst ps)"
    using read_env_file_last_wins [OF dup_result] by blast
  have teq: "t = dup_text" using t dup_open by simp
  have q: "\<forall>k \<in> set (map fst (spec_pairs (map rstrip (file_lines t)))).
        length (filter (\<lambda>e. fst e = k) [(''AB'', ''3''), (''CD'', ''2'')]) = 1
        \<and> map_of [(''AB'', ''3''), (''CD'', ''2'')] k = last_value k (spec_pairs (map rstrip (file_lines t)))"
    using p unfolding Let_def by blast
  have "\<forall>k \<in> set (map fst [(''AB'', ''1''), (''CD'', ''2''), (''AB'', ''3'')]).
        length (filter (\<lambda>e. fst e = k) [(''AB'', ''3''), (''CD'', ''2'')]) = 1
        \<and> map_of [(''AB'', ''3''), (''CD'', ''2'')] k = last_value k [(''AB'', ''1''), (''CD'', ''2''), (''AB'', ''3'')]"
    using q unfolding teq sp .
  then have "length (filter (\<lambda>e. fst e = ''AB'') [(''AB'', ''3''), (''CD'', ''2'')]) = 1
        \<and> map_of [(''AB'', ''3''), (''CD'', ''2'')] ''AB'' = Some ''3''"
    using dup_last by simp
  then show ?thesis using dup_result sp by blast
qed

end
